theory Spec2Isabelle
  imports Main "HOL-Library.Sublist"
begin

section \<open>Dependent dropdowns of the admin: the two filtering scripts\<close>

text \<open>
  The repository ships two scripts of the same shape: \<^verbatim>\<open>filter_pricing_tier.js\<close>
  (function \<^verbatim>\<open>filterPricingTiers\<close>) and its sibling for table fields (function
  \<^verbatim>\<open>filterFields\<close>). Each one looks at the page location, finds the ProductVariant
  the page is about, and fills every dependent select either from the autocomplete
  endpoint or from the inline formset rows of the page.

  What the scripts touch of the browser is modelled as data:
  \<^item> a select is a single-choice select: its options (value and text), the index of the
    selected option, the \<^verbatim>\<open>disabled\<close> property and the siblings that follow it;
  \<^item> the named form controls of the page are a store (a list), and an element with an
    id attribute lists the controls below it by their index in the store, so an
    element that contains several rows sees the controls of all of them; a control
    can be one of the selects of the page, and then it is read through that select;
  \<^item> a request in flight is a record that keeps what the closure of the callbacks
    captured: the select and the value it had when the request was sent;
  \<^item> \<^verbatim>\<open>null\<close> and \<^verbatim>\<open>undefined\<close> are both \<open>None\<close>: the scripts only test such values
    for truthiness or compare them with \<^verbatim>\<open>===\<close> to a string;
  \<^item> of jQuery's selector engine only the answers to the selectors the scripts write
    out are fixed; what it answers to the one selector put together from a value is an
    input of the model where the value holds a quote, a backslash or a control
    character.

  A third file of the repository is another copy of the pricing-tier script, without
  the branch for the Item page; what it does to a select and how it reads a row is word
  for word what is modelled here.
\<close>

subsection \<open>JavaScript strings and values\<close>

definition truthy :: "string option \<Rightarrow> bool" where
  "truthy v = (case v of None \<Rightarrow> False | Some s \<Rightarrow> s \<noteq> [])"

text \<open>\<^verbatim>\<open>a || b\<close> where \<open>b\<close> is a string.\<close>

definition js_or :: "string option \<Rightarrow> string \<Rightarrow> string" where
  "js_or v d = (case v of None \<Rightarrow> d | Some s \<Rightarrow> if s \<noteq> [] then s else d)"

text \<open>\<^verbatim>\<open>String.prototype.includes\<close>, and the attribute selectors \<^verbatim>\<open>[a*="x"]\<close>.\<close>

fun js_includes :: "string \<Rightarrow> string \<Rightarrow> bool" where
  "js_includes [] needle = (needle = [])"
| "js_includes (c # cs) needle = (prefix needle (c # cs) \<or> js_includes cs needle)"

text \<open>The attribute selector \<^verbatim>\<open>[a$="x"]\<close>.\<close>

definition ends_with :: "string \<Rightarrow> string \<Rightarrow> bool" where
  "ends_with s sfx = prefix (rev sfx) (rev s)"

text \<open>
  The identifier of an entry of a response. JSON gives a string or a number; a number
  is kept by the text JavaScript turns it into where a string is needed (\<^verbatim>\<open>7\<close> is
  \<open>IdNumber ''7''\<close>). \<open>id_text\<close> is that conversion, which \<^verbatim>\<open>new Option(text, value)\<close>
  applies to its second argument; \<open>strict_eq\<close> is \<^verbatim>\<open>item.id === selectedValue\<close>, which
  no number satisfies, the value of a select being a string or \<^verbatim>\<open>null\<close>.
\<close>

datatype json_id = IdString string | IdNumber string

definition id_text :: "json_id \<Rightarrow> string" where
  "id_text i = (case i of IdString v \<Rightarrow> v | IdNumber t \<Rightarrow> t)"

definition strict_eq :: "json_id \<Rightarrow> string option \<Rightarrow> bool" where
  "strict_eq i selectedValue = (case i of IdString v \<Rightarrow> selectedValue = Some v | IdNumber t \<Rightarrow> False)"

definition is_digit :: "char \<Rightarrow> bool" where
  "is_digit c = (c \<in> set ''0123456789'')"

text \<open>
  The regular expression \<^verbatim>\<open>/\/ecommerce\/productvariant\/(\d+)\/change\//\<close>.
  \<open>match_here\<close> tries it at the start of a string: the literal prefix, then the longest
  run of digits (a shorter run would be followed by a digit, not by the slash), then
  \<^verbatim>\<open>/change/\<close>. \<open>match_change\<close> is \<^verbatim>\<open>String.prototype.match\<close>: the leftmost
  position where the expression matches, and there the capture group.
\<close>

definition re_head :: string where
  "re_head = ''/ecommerce/productvariant/''"

definition re_tail :: string where
  "re_tail = ''/change/''"

definition match_here :: "string \<Rightarrow> string option" where
  "match_here s =
     (if prefix re_head s then
        (let r = drop (length re_head) s;
             ds = takeWhile is_digit r;
             rest = dropWhile is_digit r
         in if ds \<noteq> [] \<and> prefix re_tail rest then Some ds else None)
      else None)"

fun match_change :: "string \<Rightarrow> string option" where
  "match_change [] = None"
| "match_change (c # cs) =
     (case match_here (c # cs) of Some ds \<Rightarrow> Some ds | None \<Rightarrow> match_change cs)"

subsection \<open>The select element\<close>

datatype sibling = Help string | Other

record select_elem =
  sel_id :: string
  sel_options :: "(string \<times> string) list"
  selectedIndex :: "nat option"
  disabled :: bool
  after :: "sibling list"

text \<open>
  \<^verbatim>\<open>$select.val()\<close> on a single-choice select: the value of the selected option,
  \<^verbatim>\<open>null\<close> when the selected index is -1.
\<close>

definition val :: "select_elem \<Rightarrow> string option" where
  "val s = (case selectedIndex s of
              None \<Rightarrow> None
            | Some i \<Rightarrow> if i < length (sel_options s) then Some (fst (sel_options s ! i)) else None)"

fun index_of :: "string \<Rightarrow> (string \<times> string) list \<Rightarrow> nat option" where
  "index_of v [] = None"
| "index_of v (opt # opts) =
     (if fst opt = v then Some 0 else map_option Suc (index_of v opts))"

text \<open>
  \<^verbatim>\<open>$select.val(v)\<close>: jQuery walks the options from the last to the first and sets
  \<^verbatim>\<open>selected\<close> on those whose value is \<open>v\<close>, so in a single-choice select the first
  such option ends up selected; when there is none it sets the selected index to -1.
\<close>

definition set_val :: "string \<Rightarrow> select_elem \<Rightarrow> select_elem" where
  "set_val v s = s\<lparr>selectedIndex := index_of v (sel_options s)\<rparr>"

text \<open>
  \<^verbatim>\<open>$select.find('option:not(:first)').remove()\<close>. When an option is removed and no
  option is left selected, the browser selects the first one; the first option stays
  selected if it was. Nothing is removed from a select of at most one option.
\<close>

definition remove_not_first :: "select_elem \<Rightarrow> select_elem" where
  "remove_not_first s =
     (if length (sel_options s) \<le> 1 then s
      else s\<lparr>sel_options := take 1 (sel_options s), selectedIndex := Some 0\<rparr>)"

text \<open>
  \<^verbatim>\<open>$select.append(new Option(text, value, false, selected))\<close>. An option inserted
  with its selectedness set becomes the selected one; after an insertion that leaves
  no option selected the browser selects the first option.
\<close>

definition append_option :: "bool \<Rightarrow> string \<times> string \<Rightarrow> select_elem \<Rightarrow> select_elem" where
  "append_option selected opt s =
     s\<lparr>sel_options := sel_options s @ [opt],
       selectedIndex :=
         (if selected then Some (length (sel_options s))
          else (case selectedIndex s of None \<Rightarrow> Some 0 | Some i \<Rightarrow> Some i))\<rparr>"

text \<open>
  The loop that both branches run over their entries:
  \<^verbatim>\<open>$.each(items, function(index, item) { var option = new Option(item.text, item.id, false, item.id === selectedValue); $select.append(option); })\<close>
\<close>

definition new_option :: "json_id \<times> string \<Rightarrow> string \<times> string" where
  "new_option item = (id_text (fst item), snd item)"

fun append_items :: "string option \<Rightarrow> (json_id \<times> string) list \<Rightarrow> select_elem \<Rightarrow> select_elem" where
  "append_items selectedValue [] s = s"
| "append_items selectedValue (item # items) s =
     append_items selectedValue items
       (append_option (strict_eq (fst item) selectedValue) (new_option item) s)"

text \<open>The entries the local branch builds have strings as identifiers (\<^verbatim>\<open>idInput || tempId\<close>).\<close>

definition as_entries :: "(string \<times> string) list \<Rightarrow> (json_id \<times> string) list" where
  "as_entries items = map (\<lambda>item. (IdString (fst item), snd item)) items"

text \<open>The options of the select that carry the value \<open>v\<close>, as a truth value.\<close>

definition has_option :: "string \<Rightarrow> select_elem \<Rightarrow> bool" where
  "has_option v s = (filter (\<lambda>opt. fst opt = v) (sel_options s) \<noteq> [])"

text \<open>
  Line 55: \<^verbatim>\<open>$select.find('option[value="' + selectedValue + '"]').length\<close> as a truth
  value. The selector is text put together from the value. For a value without quote,
  backslash and control character the text is the test for the options whose value
  attribute is \<open>v\<close>. For any other value the text is another selector or none at all
  (a quote ends the string, a backslash starts an escape), and what the engine makes
  of it is not in this repository: its answer is the input \<open>answer\<close>, \<open>None\<close> when the
  engine rejects the text, in which case the exception ends the callback.
\<close>

definition plain_value :: "string \<Rightarrow> bool" where
  "plain_value v =
     list_all (\<lambda>c. c \<noteq> CHR 0x22 \<and> c \<noteq> CHR 0x5C \<and> 32 \<le> (of_char c :: nat)) v"

definition find_option :: "bool option \<Rightarrow> string \<Rightarrow> select_elem \<Rightarrow> bool option" where
  "find_option answer v s = (if plain_value v then Some (has_option v s) else answer)"

text \<open>
  A select as the admin renders it and the browser keeps it: the first option is the
  empty one (the other copy of the pricing-tier script says so in a comment: "Clear
  existing options except the empty one"), and one of the options is selected.
\<close>

definition browser_select :: "select_elem \<Rightarrow> bool" where
  "browser_select s =
     (case sel_options s of
        [] \<Rightarrow> False
      | opt # _ \<Rightarrow> fst opt = [] \<and>
          (case selectedIndex s of None \<Rightarrow> False | Some i \<Rightarrow> i < length (sel_options s)))"

text \<open>
  The same whether or not an option is selected: the first option is the empty one, and
  the selected index is -1 or the index of one of the options, as it is of every select.
\<close>

definition placeholder_first :: "select_elem \<Rightarrow> bool" where
  "placeholder_first s =
     (case sel_options s of
        [] \<Rightarrow> False
      | opt # _ \<Rightarrow> fst opt = [] \<and>
          (case selectedIndex s of None \<Rightarrow> True | Some i \<Rightarrow> i < length (sel_options s)))"

text \<open>\<^verbatim>\<open>$select.next('.help').remove()\<close> and \<^verbatim>\<open>$select.after('<p class="help">...</p>')\<close>.\<close>

definition remove_next_help :: "select_elem \<Rightarrow> select_elem" where
  "remove_next_help s = (case after s of Help m # rest \<Rightarrow> s\<lparr>after := rest\<rparr> | _ \<Rightarrow> s)"

definition add_help :: "string \<Rightarrow> select_elem \<Rightarrow> select_elem" where
  "add_help m s = s\<lparr>after := Help m # after s\<rparr>"

subsection \<open>The page\<close>

record field =
  fname :: string
  fvalue :: "string option"
  fchecked :: bool
  fbound :: bool
  fselect :: "nat option"

record elem =
  elem_id :: string
  below :: "nat list"

record parent_field =
  pv_value :: "string option"
  pv_bound :: bool

datatype http_method = GET | POST

record request =
  req_url :: string
  req_method :: http_method
  req_data :: "(string \<times> string) list"
  req_select :: nat
  req_selectedValue :: "string option"

record page =
  pathname :: string
  product_variant :: "parent_field option"
  id_inputs :: "string list"
  selects :: "select_elem list"
  controls :: "field list"
  elements :: "elem list"
  doc_bound :: bool
  console :: "string list"
  pending :: "request list"

text \<open>
  A control with \<open>fselect = Some j\<close> is the select number \<open>j\<close> of the page: its value is
  the value of that select at the moment it is read, and it is never checked.
  \<open>read_controls\<close> is the store as the page shows it at a moment.
\<close>

definition read_control :: "select_elem list \<Rightarrow> field \<Rightarrow> field" where
  "read_control sels f =
     (case fselect f of
        None \<Rightarrow> f
      | Some j \<Rightarrow> if j < length sels then f\<lparr>fvalue := val (sels ! j), fchecked := False\<rparr> else f)"

definition read_controls :: "select_elem list \<Rightarrow> field list \<Rightarrow> field list" where
  "read_controls sels store = map (read_control sels) store"

text \<open>
  \<open>product_variant\<close> is the element \<^verbatim>\<open>#id_product_variant\<close> (absent on the pages of
  the ProductVariant admin), \<open>id_inputs\<close> the values of the elements
  \<^verbatim>\<open>input[name="id"]\<close> in document order, \<open>fbound\<close>, \<open>pv_bound\<close> and \<open>doc_bound\<close> say
  whether the routine is bound to the change event of a control, to that of
  \<^verbatim>\<open>#id_product_variant\<close>, and to the formset events of the document.
\<close>

subsection \<open>What differs between the two scripts\<close>

datatype unit_kind = PricingTiers | TableFields

fun select_needle :: "unit_kind \<Rightarrow> string" where
  "select_needle PricingTiers = ''pricing_tier''"
| "select_needle TableFields = ''field''"

fun row_prefix :: "unit_kind \<Rightarrow> string" where
  "row_prefix PricingTiers = ''pricing_tiers-''"
| "row_prefix TableFields = ''table_fields-''"

fun autocomplete_url :: "unit_kind \<Rightarrow> string" where
  "autocomplete_url PricingTiers = ''/admin/ecommerce/pricingtier/autocomplete/''"
| "autocomplete_url TableFields = ''/admin/ecommerce/tablefield/autocomplete/''"

fun error_message :: "unit_kind \<Rightarrow> string" where
  "error_message PricingTiers = ''Error fetching PricingTiers''"
| "error_message TableFields = ''Error fetching TableFields''"

fun local_help :: "unit_kind \<Rightarrow> string" where
  "local_help PricingTiers = ''Add Pricing Tiers in the Pricing Tier section to enable this field.''"
| "local_help TableFields = ''Add Table Fields in the Table Field section to enable this field.''"

fun own_formset :: "unit_kind \<Rightarrow> string" where
  "own_formset PricingTiers = ''pricing_tiers''"
| "own_formset TableFields = ''table_fields''"

fun change_suffixes :: "unit_kind \<Rightarrow> string list" where
  "change_suffixes PricingTiers = [''-tier_type'', ''-range_start'', ''-range_end'']"
| "change_suffixes TableFields = [''-name'', ''-field_type'']"

definition no_parent_help :: string where
  "no_parent_help = ''Select a Product Variant to enable this field.''"

definition matches_unit :: "unit_kind \<Rightarrow> select_elem \<Rightarrow> bool" where
  "matches_unit k s = js_includes (sel_id s) (select_needle k)"

subsection \<open>Reading a formset row\<close>

text \<open>\<^verbatim>\<open>$formsetRow.find('[name$="..."]')\<close>: the controls below the element, in document order.\<close>

definition find_fields :: "field list \<Rightarrow> elem \<Rightarrow> string \<Rightarrow> field list" where
  "find_fields store r sfx =
     filter (\<lambda>f. ends_with (fname f) sfx)
       (map (\<lambda>i. store ! i) (filter (\<lambda>i. i < length store) (below r)))"

text \<open>\<^verbatim>\<open>.val()\<close> of a jQuery collection reads its first element, and is undefined on an empty one.\<close>

definition find_val :: "field list \<Rightarrow> elem \<Rightarrow> string \<Rightarrow> string option" where
  "find_val store r sfx =
     (case find_fields store r sfx of [] \<Rightarrow> None | f # _ \<Rightarrow> fvalue f)"

text \<open>\<^verbatim>\<open>$formsetRow.find('[name$="-DELETE"]').is(':checked')\<close>: some element of the collection is checked.\<close>

definition marked_deleted :: "field list \<Rightarrow> elem \<Rightarrow> bool" where
  "marked_deleted store r = (filter fchecked (find_fields store r ''-DELETE'') \<noteq> [])"

text \<open>The body of the loop over the rows, for each script: the entry it pushes, if any.\<close>

definition pricing_tier_of_row :: "field list \<Rightarrow> elem \<Rightarrow> (string \<times> string) option" where
  "pricing_tier_of_row store r =
     (if marked_deleted store r then None
      else
        (let tierType = find_val store r ''-tier_type'';
             rangeStart = find_val store r ''-range_start'';
             rangeEnd = find_val store r ''-range_end'';
             idInput = find_val store r ''-id'';
             tempId = elem_id r
         in if truthy tierType \<and> truthy rangeStart \<and> truthy rangeEnd then
              (case (tierType, rangeStart, rangeEnd) of
                 (Some t, Some a, Some b) \<Rightarrow>
                   Some (js_or idInput tempId, t @ '' ('' @ a @ ''-'' @ b @ '')'')
               | _ \<Rightarrow> None)
            else None))"

definition table_field_of_row :: "field list \<Rightarrow> elem \<Rightarrow> (string \<times> string) option" where
  "table_field_of_row store r =
     (if marked_deleted store r then None
      else
        (let name = find_val store r ''-name'';
             fieldType = find_val store r ''-field_type'';
             idInput = find_val store r ''-id'';
             tempId = elem_id r
         in if truthy name \<and> truthy fieldType then
              (case (name, fieldType) of
                 (Some n, Some t) \<Rightarrow> Some (js_or idInput tempId, n @ '' ('' @ t @ '')'')
               | _ \<Rightarrow> None)
            else None))"

fun item_of_row :: "unit_kind \<Rightarrow> field list \<Rightarrow> elem \<Rightarrow> (string \<times> string) option" where
  "item_of_row PricingTiers store r = pricing_tier_of_row store r"
| "item_of_row TableFields store r = table_field_of_row store r"

text \<open>The loop \<^verbatim>\<open>$('[id^="pricing_tiers-"]').each(...)\<close> over the elements already selected.\<close>

fun synthesize :: "unit_kind \<Rightarrow> field list \<Rightarrow> elem list \<Rightarrow> (string \<times> string) list" where
  "synthesize k store [] = []"
| "synthesize k store (r # rs) =
     (case item_of_row k store r of
        None \<Rightarrow> synthesize k store rs
      | Some item \<Rightarrow> item # synthesize k store rs)"

definition formset_rows :: "unit_kind \<Rightarrow> page \<Rightarrow> elem list" where
  "formset_rows k p = filter (\<lambda>e. prefix (row_prefix k) (elem_id e)) (elements p)"

subsection \<open>The three things the routine does to a select\<close>

text \<open>Item add page without a ProductVariant (lines 14 to 18).\<close>

definition disable_no_parent :: "select_elem \<Rightarrow> select_elem" where
  "disable_no_parent s =
     add_help no_parent_help (remove_next_help (set_val [] (s\<lparr>disabled := True\<rparr>)))"

text \<open>
  The success callback of the request (lines 49 to 58), with the value captured when the
  request was sent. When the engine rejects the selector of line 55 the callback ends
  there, with the select as the loop left it.
\<close>

definition ajax_success ::
  "bool option \<Rightarrow> string option \<Rightarrow> (json_id \<times> string) list \<Rightarrow> select_elem \<Rightarrow> select_elem" where
  "ajax_success answer selectedValue results s =
     (let s1 = remove_not_first s;
          s2 = append_items selectedValue results s1
      in case selectedValue of
           None \<Rightarrow> s2
         | Some v \<Rightarrow>
             if v = [] then s2
             else (case find_option answer v s2 of
                     None \<Rightarrow> s2
                   | Some found \<Rightarrow> if \<not> found then set_val [] s2 else s2))"

text \<open>
  The body of the loop over the selects when the parent is not saved (lines 68 to 103).
  \<open>store\<close> is the store as it is read at line 75, once the select has lost its options.
\<close>

definition populate_local :: "unit_kind \<Rightarrow> field list \<Rightarrow> elem list \<Rightarrow> select_elem \<Rightarrow> select_elem" where
  "populate_local k store rows s =
     (let selectedValue = val s;
          s1 = remove_not_first (s\<lparr>disabled := False\<rparr>);
          items = synthesize k store rows;
          s2 = append_items selectedValue (as_entries items) s1
      in if length items = 0 then add_help (local_help k) (s2\<lparr>disabled := True\<rparr>) else s2)"

subsection \<open>The routine\<close>

definition on_matching :: "unit_kind \<Rightarrow> (select_elem \<Rightarrow> select_elem) \<Rightarrow> select_elem list \<Rightarrow> select_elem list" where
  "on_matching k f ss = map (\<lambda>s. if matches_unit k s then f s else s) ss"

definition isItemAddPage :: "page \<Rightarrow> bool" where
  "isItemAddPage p = js_includes (pathname p) ''/ecommerce/item/add/''"

definition isProductVariantAddPage :: "page \<Rightarrow> bool" where
  "isProductVariantAddPage p = js_includes (pathname p) ''/ecommerce/productvariant/add/''"

definition isProductVariantChangePage :: "page \<Rightarrow> bool" where
  "isProductVariantChangePage p = (match_change (pathname p) \<noteq> None)"

text \<open>\<^verbatim>\<open>$('#id_product_variant').val()\<close>, undefined when the page has no such element.\<close>

definition parent_value :: "page \<Rightarrow> string option" where
  "parent_value p = (case product_variant p of None \<Rightarrow> None | Some e \<Rightarrow> pv_value e)"

text \<open>
  The context detector (lines 5 to 33): \<open>None\<close> when the routine returns at line 19,
  otherwise the value of \<^verbatim>\<open>productVariantId\<close> at line 35.
\<close>

definition detect :: "page \<Rightarrow> string option option" where
  "detect p =
     (if isItemAddPage p then
        (let productVariantId = parent_value p
         in if \<not> truthy productVariantId then None else Some productVariantId)
      else if isProductVariantAddPage p then
        (case id_inputs p of
           [] \<Rightarrow> Some None
         | v # _ \<Rightarrow> if v \<noteq> [] then Some (Some v) else Some None)
      else if isProductVariantChangePage p then Some (match_change (pathname p))
      else Some None)"

text \<open>
  The call \<^verbatim>\<open>$.ajax({url, data, success, error})\<close> names no method, so jQuery sends a GET
  and puts the two entries of \<^verbatim>\<open>data\<close> in the query string. The record also keeps what the
  callbacks close over: the select, by its position among the selects of the page, and
  \<^verbatim>\<open>selectedValue\<close>.
\<close>

definition new_request :: "unit_kind \<Rightarrow> string \<Rightarrow> nat \<times> select_elem \<Rightarrow> request" where
  "new_request k productVariantId js =
     \<lparr>req_url = autocomplete_url k, req_method = GET,
      req_data = [(''product_variant_id'', productVariantId), (''q'', [])],
      req_select = fst js, req_selectedValue = val (snd js)\<rparr>"

text \<open>Lines 37 to 63: one request for each select, sent in document order.\<close>

definition populate_remote :: "unit_kind \<Rightarrow> string \<Rightarrow> page \<Rightarrow> page" where
  "populate_remote k productVariantId p =
     p\<lparr>selects := on_matching k (\<lambda>s. (remove_next_help s)\<lparr>disabled := False\<rparr>) (selects p),
       pending := pending p @
         map (new_request k productVariantId)
           (filter (\<lambda>js. matches_unit k (snd js)) (enumerate 0 (selects p)))\<rparr>"

text \<open>
  Lines 66 to 104. The help messages go first, then the selects are filled one after the
  other, in document order. A select is emptied (line 72) before the rows are read (line
  75), and what was done to the selects before it stays done: a row whose control is
  one of these selects is read with the value that select has by then.
\<close>

definition matching :: "unit_kind \<Rightarrow> select_elem list \<Rightarrow> nat list" where
  "matching k ss = filter (\<lambda>i. matches_unit k (ss ! i)) [0..<length ss]"

definition populate_local_at :: "unit_kind \<Rightarrow> nat \<Rightarrow> page \<Rightarrow> page" where
  "populate_local_at k i p =
     (let s = selects p ! i;
          emptied = (selects p)[i := remove_not_first (s\<lparr>disabled := False\<rparr>)];
          store = read_controls emptied (controls p)
      in p\<lparr>selects := (selects p)[i := populate_local k store (formset_rows k p) s]\<rparr>)"

definition populate_unsaved :: "unit_kind \<Rightarrow> page \<Rightarrow> page" where
  "populate_unsaved k p =
     fold (populate_local_at k) (matching k (selects p))
       (p\<lparr>selects := on_matching k remove_next_help (selects p)\<rparr>)"

text \<open>
  The routine: the detector, then the branch of line 35 when the identifier is truthy,
  the branch of line 64 on the add page of a ProductVariant, and nothing otherwise.
\<close>

definition filterRoutine :: "unit_kind \<Rightarrow> page \<Rightarrow> page" where
  "filterRoutine k p =
     (case detect p of
        None \<Rightarrow> p\<lparr>selects := on_matching k disable_no_parent (selects p)\<rparr>
      | Some productVariantId \<Rightarrow>
          if truthy productVariantId then
            (case productVariantId of Some v \<Rightarrow> populate_remote k v p | None \<Rightarrow> p)
          else if isProductVariantAddPage p then populate_unsaved k p
          else p)"

definition filterPricingTiers :: "page \<Rightarrow> page" where
  "filterPricingTiers = filterRoutine PricingTiers"

definition filterFields :: "page \<Rightarrow> page" where
  "filterFields = filterRoutine TableFields"

subsection \<open>The event binder and the events\<close>

text \<open>
  What can happen to a page: the document becomes ready, a formset announces that a row
  was added or removed (with the name of the formset, if the event carries one), the
  parent dropdown or a named control changes, a request in flight succeeds or fails. A
  response is the list \<^verbatim>\<open>data.results\<close>, each entry an identifier and a text; with it
  comes the answer of the selector engine at line 55 (see \<open>find_option\<close>).
\<close>

datatype event =
    Ready
  | FormsetAdded "string option"
  | FormsetRemoved "string option"
  | ChangeParent
  | ChangeField nat
  | AjaxSuccess nat "(json_id \<times> string) list" "bool option"
  | AjaxError nat

text \<open>Lines 112 to 127: what the ready handler binds once the routine has run.\<close>

definition bind_handlers :: "unit_kind \<Rightarrow> page \<Rightarrow> page" where
  "bind_handlers k p =
     p\<lparr>product_variant := map_option (\<lambda>e. e\<lparr>pv_bound := True\<rparr>) (product_variant p),
       doc_bound := True,
       controls := map (\<lambda>f. if filter (ends_with (fname f)) (change_suffixes k) \<noteq> []
                           then f\<lparr>fbound := True\<rparr> else f) (controls p)\<rparr>"

definition formset_handler :: "unit_kind \<Rightarrow> string option \<Rightarrow> page \<Rightarrow> page" where
  "formset_handler k formsetName p =
     (if formsetName = Some (own_formset k) \<or> formsetName = Some ''items''
      then filterRoutine k p else p)"

definition without :: "nat \<Rightarrow> 'a list \<Rightarrow> 'a list" where
  "without i xs = take i xs @ drop (Suc i) xs"

fun dispatch :: "unit_kind \<Rightarrow> event \<Rightarrow> page \<Rightarrow> page" where
  "dispatch k Ready p = bind_handlers k (filterRoutine k p)"
| "dispatch k (FormsetAdded formsetName) p =
     (if doc_bound p then formset_handler k formsetName p else p)"
| "dispatch k (FormsetRemoved formsetName) p =
     (if doc_bound p then formset_handler k formsetName p else p)"
| "dispatch k ChangeParent p =
     (case product_variant p of
        None \<Rightarrow> p
      | Some e \<Rightarrow> if pv_bound e then filterRoutine k p else p)"
| "dispatch k (ChangeField i) p =
     (if i < length (controls p) \<and> fbound (controls p ! i) then filterRoutine k p else p)"
| "dispatch k (AjaxSuccess n results answer) p =
     (if n < length (pending p) then
        (let r = pending p ! n; p' = p\<lparr>pending := without n (pending p)\<rparr>
         in if req_select r < length (selects p) then
              p'\<lparr>selects := (selects p)[req_select r :=
                    ajax_success answer (req_selectedValue r) results (selects p ! req_select r)]\<rparr>
            else p')
      else p)"
| "dispatch k (AjaxError n) p =
     (if n < length (pending p) then
        p\<lparr>pending := without n (pending p), console := console p @ [error_message k]\<rparr>
      else p)"


subsection \<open>A page of each kind, for the concrete checks\<close>

text \<open>
  A select of an Item row with one tier chosen, an empty select for a table field,
  the controls of three pricing-tier rows (the second has no upper bound, the third is
  marked for deletion) and of one table-field row, and three pages that hold them: the
  add page and a change page of a ProductVariant, and the add page of an Item with no
  ProductVariant chosen. \<open>in_flight\<close> is the request the pricing-tier script sends for
  the first select of the change page.
\<close>

definition tier_select :: select_elem where
  "tier_select =
     \<lparr>sel_id = ''id_items-0-pricing_tier'',
      sel_options = [([], ''---------''), (''7'', ''Buy (1-10)'')],
      selectedIndex = Some 1, disabled = False, after = [Help ''Tier of the item.'']\<rparr>"

definition field_select :: select_elem where
  "field_select =
     \<lparr>sel_id = ''id_items-0-data_entries-0-field'',
      sel_options = [([], ''---------'')],
      selectedIndex = Some 0, disabled = False, after = []\<rparr>"

definition tier_controls :: "field list" where
  "tier_controls =
     [\<lparr>fname = ''pricing_tiers-0-tier_type'', fvalue = Some ''Buy'', fchecked = False, fbound = False, fselect = None\<rparr>,
      \<lparr>fname = ''pricing_tiers-0-range_start'', fvalue = Some ''1'', fchecked = False, fbound = False, fselect = None\<rparr>,
      \<lparr>fname = ''pricing_tiers-0-range_end'', fvalue = Some ''10'', fchecked = False, fbound = False, fselect = None\<rparr>,
      \<lparr>fname = ''pricing_tiers-0-id'', fvalue = Some [], fchecked = False, fbound = False, fselect = None\<rparr>,
      \<lparr>fname = ''pricing_tiers-0-DELETE'', fvalue = Some ''on'', fchecked = False, fbound = False, fselect = None\<rparr>,
      \<lparr>fname = ''pricing_tiers-1-tier_type'', fvalue = Some ''Rent'', fchecked = False, fbound = False, fselect = None\<rparr>,
      \<lparr>fname = ''pricing_tiers-1-range_start'', fvalue = Some ''5'', fchecked = False, fbound = False, fselect = None\<rparr>,
      \<lparr>fname = ''pricing_tiers-1-range_end'', fvalue = Some [], fchecked = False, fbound = False, fselect = None\<rparr>,
      \<lparr>fname = ''pricing_tiers-1-id'', fvalue = Some ''31'', fchecked = False, fbound = False, fselect = None\<rparr>,
      \<lparr>fname = ''pricing_tiers-2-tier_type'', fvalue = Some ''Buy'', fchecked = False, fbound = False, fselect = None\<rparr>,
      \<lparr>fname = ''pricing_tiers-2-range_start'', fvalue = Some ''11'', fchecked = False, fbound = False, fselect = None\<rparr>,
      \<lparr>fname = ''pricing_tiers-2-range_end'', fvalue = Some ''20'', fchecked = False, fbound = False, fselect = None\<rparr>,
      \<lparr>fname = ''pricing_tiers-2-id'', fvalue = Some ''32'', fchecked = False, fbound = False, fselect = None\<rparr>,
      \<lparr>fname = ''pricing_tiers-2-DELETE'', fvalue = Some ''on'', fchecked = True, fbound = False, fselect = None\<rparr>,
      \<lparr>fname = ''table_fields-0-name'', fvalue = Some ''Width'', fchecked = False, fbound = False, fselect = None\<rparr>,
      \<lparr>fname = ''table_fields-0-field_type'', fvalue = Some ''number'', fchecked = False, fbound = False, fselect = None\<rparr>,
      \<lparr>fname = ''table_fields-0-id'', fvalue = Some ''4'', fchecked = False, fbound = False, fselect = None\<rparr>]"

definition tier_row0 :: elem where
  "tier_row0 = \<lparr>elem_id = ''pricing_tiers-0'', below = [0, 1, 2, 3, 4]\<rparr>"

definition tier_row1 :: elem where
  "tier_row1 = \<lparr>elem_id = ''pricing_tiers-1'', below = [5, 6, 7, 8]\<rparr>"

definition tier_row2 :: elem where
  "tier_row2 = \<lparr>elem_id = ''pricing_tiers-2'', below = [9, 10, 11, 12, 13]\<rparr>"

definition field_row0 :: elem where
  "field_row0 = \<lparr>elem_id = ''table_fields-0'', below = [14, 15, 16]\<rparr>"

definition variant_add_page :: page where
  "variant_add_page =
     \<lparr>pathname = ''/admin/ecommerce/productvariant/add/'', product_variant = None,
      id_inputs = [], selects = [tier_select, field_select], controls = tier_controls,
      elements = [tier_row0, tier_row1, tier_row2, field_row0],
      doc_bound = True, console = [], pending = []\<rparr>"

definition variant_change_page :: page where
  "variant_change_page =
     \<lparr>pathname = ''/admin/ecommerce/productvariant/42/change/'', product_variant = None,
      id_inputs = [], selects = [tier_select, field_select], controls = tier_controls,
      elements = [tier_row0, tier_row1, tier_row2, field_row0],
      doc_bound = False, console = [], pending = []\<rparr>"

definition item_add_page :: page where
  "item_add_page =
     \<lparr>pathname = ''/admin/ecommerce/item/add/'',
      product_variant = Some \<lparr>pv_value = Some [], pv_bound = False\<rparr>,
      id_inputs = [], selects = [tier_select, field_select], controls = [], elements = [],
      doc_bound = False, console = [], pending = []\<rparr>"

definition in_flight :: request where
  "in_flight =
     \<lparr>req_url = ''/admin/ecommerce/pricingtier/autocomplete/'', req_method = GET,
      req_data = [(''product_variant_id'', ''42''), (''q'', [])],
      req_select = 0, req_selectedValue = Some ''7''\<rparr>"






text \<open>
  The add page of a ProductVariant with one pricing-tier row, laid out as the admin
  does: the container of the inline has the id \<^verbatim>\<open>pricing_tiers-group\<close> and the row, with
  all its controls, is inside it.
\<close>

definition group_controls :: "field list" where
  "group_controls =
     [\<lparr>fname = ''pricing_tiers-0-tier_type'', fvalue = Some ''Buy'', fchecked = False, fbound = False, fselect = None\<rparr>,
      \<lparr>fname = ''pricing_tiers-0-range_start'', fvalue = Some ''1'', fchecked = False, fbound = False, fselect = None\<rparr>,
      \<lparr>fname = ''pricing_tiers-0-range_end'', fvalue = Some ''10'', fchecked = False, fbound = False, fselect = None\<rparr>,
      \<lparr>fname = ''pricing_tiers-0-id'', fvalue = Some [], fchecked = False, fbound = False, fselect = None\<rparr>,
      \<lparr>fname = ''pricing_tiers-0-DELETE'', fvalue = Some ''on'', fchecked = False, fbound = False, fselect = None\<rparr>]"

definition tier_group :: elem where
  "tier_group = \<lparr>elem_id = ''pricing_tiers-group'', below = [0, 1, 2, 3, 4]\<rparr>"

definition group_page :: page where
  "group_page =
     \<lparr>pathname = ''/admin/ecommerce/productvariant/add/'', product_variant = None,
      id_inputs = [], selects = [tier_select], controls = group_controls,
      elements = [tier_group, tier_row0],
      doc_bound = False, console = [], pending = []\<rparr>"

text \<open>
  The same page with one table-field row whose type is chosen in a select: the id of
  that select, \<^verbatim>\<open>id_table_fields-0-field_type\<close>, holds \<^verbatim>\<open>field\<close>, so the table-field script
  takes it for a dependent select.
\<close>

definition type_select :: select_elem where
  "type_select =
     \<lparr>sel_id = ''id_table_fields-0-field_type'',
      sel_options = [([], ''---------''), (''number'', ''Number''), (''text'', ''Text'')],
      selectedIndex = Some 1, disabled = False, after = []\<rparr>"

definition aliased_controls :: "field list" where
  "aliased_controls =
     [\<lparr>fname = ''table_fields-0-name'', fvalue = Some ''Width'', fchecked = False, fbound = False, fselect = None\<rparr>,
      \<lparr>fname = ''table_fields-0-field_type'', fvalue = Some ''number'', fchecked = False, fbound = False, fselect = Some 0\<rparr>,
      \<lparr>fname = ''table_fields-0-id'', fvalue = Some [], fchecked = False, fbound = False, fselect = None\<rparr>,
      \<lparr>fname = ''table_fields-0-DELETE'', fvalue = Some ''on'', fchecked = False, fbound = False, fselect = None\<rparr>]"

definition aliased_row :: elem where
  "aliased_row = \<lparr>elem_id = ''table_fields-0'', below = [0, 1, 2, 3]\<rparr>"

definition aliased_page :: page where
  "aliased_page =
     \<lparr>pathname = ''/admin/ecommerce/productvariant/add/'', product_variant = None,
      id_inputs = [], selects = [type_select, field_select], controls = aliased_controls,
      elements = [aliased_row],
      doc_bound = False, console = [], pending = []\<rparr>"

subsection \<open>What stays bound\<close>


section \<open>Properties\<close>

lemmas example_defs = tier_select_def field_select_def tier_controls_def tier_row0_def
  tier_row1_def tier_row2_def field_row0_def variant_add_page_def variant_change_page_def
  item_add_page_def

lemmas row_ops = pricing_tier_of_row_def table_field_of_row_def marked_deleted_def find_val_def
  find_fields_def ends_with_def truthy_def js_or_def

subsection \<open>Identifiers and entries\<close>

lemma strict_eq_Some: "strict_eq i (Some v) \<longleftrightarrow> i = IdString v"
  by (cases i) (auto simp: strict_eq_def)

lemma strict_eq_None: "\<not> strict_eq i None"
  by (cases i) (simp_all add: strict_eq_def)

lemma strict_eq_carried:
  "(\<exists>item\<in>set items. strict_eq (fst item) sv) \<longleftrightarrow> map_option IdString sv \<in> Some ` fst ` set items"
  by (cases sv) (force simp: strict_eq_Some strict_eq_None image_iff)+

lemma new_option_as_entries: "map new_option (as_entries items) = items"
  by (induction items) (simp_all add: as_entries_def new_option_def id_text_def)

lemma carried_as_entries:
  "map_option IdString sv \<in> Some ` fst ` set (as_entries items) \<longleftrightarrow> sv \<in> Some ` fst ` set items"
  by (cases sv) (auto simp: as_entries_def image_iff)


subsection \<open>The options of a select after each operation\<close>

lemma options_remove_not_first: "sel_options (remove_not_first s) = take 1 (sel_options s)"
  by (simp add: remove_not_first_def)

lemma options_append_items:
  "sel_options (append_items sv items s) = sel_options s @ map new_option items"
  by (induction items arbitrary: s) (simp_all add: append_option_def)

lemma options_set_val: "sel_options (set_val v s) = sel_options s"
  by (simp add: set_val_def)

lemma options_remove_next_help: "sel_options (remove_next_help s) = sel_options s"
  by (simp add: remove_next_help_def split: list.splits sibling.splits)

lemma options_add_help: "sel_options (add_help m s) = sel_options s"
  by (simp add: add_help_def)

lemma options_disable_no_parent: "sel_options (disable_no_parent s) = sel_options s"
  by (simp add: disable_no_parent_def options_add_help options_remove_next_help options_set_val)

lemma options_ajax_success:
  "sel_options (ajax_success answer sv results s) = take 1 (sel_options s) @ map new_option results"
  by (simp add: ajax_success_def Let_def options_append_items options_remove_not_first
      options_set_val split: option.splits)

lemma options_populate_local:
  "sel_options (populate_local k store rows s) = take 1 (sel_options s) @ synthesize k store rows"
  by (simp add: populate_local_def Let_def options_append_items options_remove_not_first
      options_add_help new_option_as_entries)

subsection \<open>The selected value\<close>

lemma index_append_items_other:
  "map_option IdString sv \<notin> Some ` fst ` set items \<Longrightarrow> selectedIndex s = Some i \<Longrightarrow>
   selectedIndex (append_items sv items s) = Some i"
proof (induction items arbitrary: s)
  case Nil
  then show ?case by simp
next
  case (Cons item items)
  from Cons.prems(1) have no: "\<not> strict_eq (fst item) sv"
    and rest: "map_option IdString sv \<notin> Some ` fst ` set items"
    using strict_eq_carried [of "item # items" sv] strict_eq_carried [of items sv] by auto
  have "selectedIndex (append_option (strict_eq (fst item) sv) (new_option item) s) = Some i"
    using no Cons.prems(2) by (simp add: append_option_def)
  then show ?case using Cons.IH [OF rest] by simp
qed

lemma val_append_items_present:
  "IdString v \<in> fst ` set items \<Longrightarrow> val (append_items (Some v) items s) = Some v"
proof (induction items arbitrary: s)
  case Nil
  then show ?case by simp
next
  case (Cons item items)
  show ?case
  proof (cases "IdString v \<in> fst ` set items")
    case True
    then show ?thesis using Cons.IH by simp
  next
    case False
    with Cons.prems have here: "fst item = IdString v" by auto
    let ?s = "append_option (strict_eq (fst item) (Some v)) (new_option item) s"
    have idx: "selectedIndex ?s = Some (length (sel_options s))"
      using here by (simp add: append_option_def strict_eq_Some)
    have "map_option IdString (Some v) \<notin> Some ` fst ` set items" using False by auto
    then have "selectedIndex (append_items (Some v) items ?s) = Some (length (sel_options s))"
      using idx by (rule index_append_items_other)
    moreover have "sel_options (append_items (Some v) items ?s) =
        sel_options s @ new_option item # map new_option items"
      by (simp add: options_append_items append_option_def)
    moreover have "fst (new_option item) = v"
      using here by (simp add: new_option_def id_text_def)
    ultimately show ?thesis by (simp add: val_def nth_append)
  qed
qed

lemma index_remove_not_first:
  "browser_select s \<Longrightarrow> selectedIndex (remove_not_first s) = Some 0"
  by (auto simp: browser_select_def remove_not_first_def split: list.splits option.splits)

lemma first_remove_not_first:
  "browser_select s \<Longrightarrow> \<exists>t. sel_options (remove_not_first s) = [([], t)]"
  by (cases "sel_options s") (auto simp: browser_select_def remove_not_first_def split: list.splits option.splits)

lemma val_repopulated:
  assumes "browser_select s"
  shows "val (append_items sv items (remove_not_first s)) =
           (if map_option IdString sv \<in> Some ` fst ` set items then sv else Some [])"
proof (cases "map_option IdString sv \<in> Some ` fst ` set items")
  case True
  then obtain v where "sv = Some v" "IdString v \<in> fst ` set items" by (cases sv) auto
  then show ?thesis using val_append_items_present by simp
next
  case False
  obtain t where o: "sel_options (remove_not_first s) = [([], t)]"
    using first_remove_not_first [OF assms] by blast
  have "selectedIndex (append_items sv items (remove_not_first s)) = Some 0"
    using False index_remove_not_first [OF assms] by (rule index_append_items_other)
  then show ?thesis using False o by (simp add: val_def options_append_items)
qed

lemma index_of_None: "index_of v opts = None \<longleftrightarrow> v \<notin> fst ` set opts"
  by (induction opts) auto

lemma index_of_Some: "index_of v opts = Some i \<Longrightarrow> i < length opts \<and> fst (opts ! i) = v"
  by (induction opts arbitrary: i) (auto split: if_splits)

lemma has_option_iff: "has_option v s \<longleftrightarrow> v \<in> fst ` set (sel_options s)"
  by (auto simp: has_option_def filter_empty_conv)

lemma val_set_val: "val (set_val v s) = (if has_option v s then Some v else None)"
proof (cases "index_of v (sel_options s)")
  case None
  then have "val (set_val v s) = None"
    by (simp add: set_val_def val_def)
  moreover have "\<not> has_option v s"
    using None index_of_None [of v "sel_options s"] by (simp add: has_option_iff)
  ultimately show ?thesis by simp
next
  case (Some i)
  then have i: "i < length (sel_options s) \<and> fst (sel_options s ! i) = v"
    by (rule index_of_Some)
  then have "val (set_val v s) = Some v"
    using Some by (simp add: set_val_def val_def)
  moreover have "has_option v s"
    using i by (auto simp: has_option_iff dest: nth_mem)
  ultimately show ?thesis by simp
qed

lemma browser_select_disabled [simp]: "browser_select (s\<lparr>disabled := b\<rparr>) = browser_select s"
  by (simp add: browser_select_def split: list.splits option.splits)

lemma val_disabled [simp]: "val (s\<lparr>disabled := b\<rparr>) = val s"
  by (simp add: val_def split: option.splits)

lemma val_add_help [simp]: "val (add_help m s) = val s"
  by (simp add: val_def add_help_def split: option.splits)

lemma val_remove_next_help [simp]: "val (remove_next_help s) = val s"
  by (simp add: val_def remove_next_help_def split: option.splits list.splits sibling.splits)

lemma has_option_disabled [simp]: "has_option v (s\<lparr>disabled := b\<rparr>) = has_option v s"
  by (simp add: has_option_def)

lemma set_val_empty_first:
  "sel_options s = ([], t) # rest \<Longrightarrow> val (set_val [] s) = Some []"
  by (simp add: set_val_def val_def)

lemma ajax_success_cases:
  "ajax_success answer sv results s = append_items sv results (remove_not_first s) \<or>
   ajax_success answer sv results s = set_val [] (append_items sv results (remove_not_first s))"
  by (simp add: ajax_success_def Let_def split: option.splits)



lemma val_ajax_success:
  assumes "browser_select s"
  shows "map_option IdString sv \<notin> Some ` fst ` set results \<Longrightarrow>
           val (ajax_success answer sv results s) = Some []"
    and "val (ajax_success answer sv results s) = sv \<or>
         val (ajax_success answer sv results s) = Some []"
proof -
  let ?s2 = "append_items sv results (remove_not_first s)"
  have v2: "val ?s2 = (if map_option IdString sv \<in> Some ` fst ` set results then sv else Some [])"
    using assms by (rule val_repopulated)
  obtain t where "sel_options ?s2 = ([], t) # map new_option results"
    using first_remove_not_first [OF assms] by (auto simp: options_append_items)
  then have e: "val (set_val [] ?s2) = Some []" by (rule set_val_empty_first)
  show "map_option IdString sv \<notin> Some ` fst ` set results \<Longrightarrow>
           val (ajax_success answer sv results s) = Some []"
    using ajax_success_cases [of answer sv results s] v2 e by auto
  show "val (ajax_success answer sv results s) = sv \<or>
         val (ajax_success answer sv results s) = Some []"
    using ajax_success_cases [of answer sv results s] v2 e by auto
qed

lemma val_populate_local_unfold:
  "val (populate_local k store rows s) =
     val (append_items (val s) (as_entries (synthesize k store rows))
           (remove_not_first (s\<lparr>disabled := False\<rparr>)))"
  by (simp add: populate_local_def Let_def)

lemma val_populate_local:
  assumes "browser_select s"
  shows "val (populate_local k store rows s) =
           (if val s \<in> Some ` fst ` set (synthesize k store rows) then val s else Some [])"
  using val_repopulated [of "s\<lparr>disabled := False\<rparr>" "val s" "as_entries (synthesize k store rows)"] assms
  by (simp only: val_populate_local_unfold carried_as_entries browser_select_disabled)


lemma disable_no_parent_props:
  "disabled (disable_no_parent s) \<and>
   val (disable_no_parent s) = (if has_option [] s then Some [] else None) \<and>
   sel_id (disable_no_parent s) = sel_id s \<and>
   after (disable_no_parent s) = Help no_parent_help # after (remove_next_help s)"
  by (simp add: disable_no_parent_def val_set_val)
    (simp add: add_help_def remove_next_help_def set_val_def split: list.splits sibling.splits)

lemma disable_no_parent_idem: "disable_no_parent (disable_no_parent s) = disable_no_parent s"
  by (simp add: disable_no_parent_def add_help_def remove_next_help_def set_val_def
      split: list.splits sibling.splits)

text \<open>
  The state \<open>browser_select\<close> describes is kept by everything the routine does to a select.
\<close>

lemma browser_select_append_option:
  "browser_select s \<Longrightarrow> browser_select (append_option selected opt s)"
  by (cases "sel_options s")
    (auto simp: browser_select_def append_option_def split: option.splits)

lemma browser_select_append_items:
  "browser_select s \<Longrightarrow> browser_select (append_items sv items s)"
  by (induction items arbitrary: s) (simp_all add: browser_select_append_option)

lemma browser_select_remove_not_first:
  "browser_select s \<Longrightarrow> browser_select (remove_not_first s)"
  by (cases "sel_options s")
    (auto simp: browser_select_def remove_not_first_def split: option.splits)

lemma browser_select_set_val:
  "browser_select s \<Longrightarrow> browser_select (set_val [] s)"
  by (cases "sel_options s") (auto simp: browser_select_def set_val_def split: option.splits)

lemma browser_select_add_help [simp]: "browser_select (add_help m s) = browser_select s"
  by (simp add: browser_select_def add_help_def split: list.splits option.splits)

lemma browser_select_remove_next_help [simp]:
  "browser_select (remove_next_help s) = browser_select s"
proof -
  have "sel_options (remove_next_help s) = sel_options s"
    and "selectedIndex (remove_next_help s) = selectedIndex s"
    by (simp_all add: remove_next_help_def split: list.splits sibling.splits)
  then show ?thesis by (simp add: browser_select_def split: list.splits option.splits)
qed

lemma browser_select_ajax_success:
  "browser_select s \<Longrightarrow> browser_select (ajax_success answer sv results s)"
  using ajax_success_cases [of answer sv results s]
  by (auto simp: browser_select_append_items browser_select_remove_not_first browser_select_set_val)

lemma browser_select_populate_local:
  "browser_select s \<Longrightarrow> browser_select (populate_local k store rows s)"
  by (simp add: populate_local_def Let_def browser_select_append_items
      browser_select_remove_not_first)

lemma browser_select_disable_no_parent:
  "browser_select s \<Longrightarrow> browser_select (disable_no_parent s)"
  by (simp add: disable_no_parent_def browser_select_set_val)






lemma placeholder_first_disabled [simp]:
  "placeholder_first (s\<lparr>disabled := b\<rparr>) = placeholder_first s"
  by (simp add: placeholder_first_def split: list.splits option.splits)

lemma placeholder_first_add_help [simp]: "placeholder_first (add_help m s) = placeholder_first s"
  by (simp add: placeholder_first_def add_help_def split: list.splits option.splits)

lemma placeholder_first_remove_next_help [simp]:
  "placeholder_first (remove_next_help s) = placeholder_first s"
proof -
  have "sel_options (remove_next_help s) = sel_options s"
    and "selectedIndex (remove_next_help s) = selectedIndex s"
    by (simp_all add: remove_next_help_def split: list.splits sibling.splits)
  then show ?thesis by (simp add: placeholder_first_def split: list.splits option.splits)
qed

lemma index_remove_next_help [simp]: "selectedIndex (remove_next_help s) = selectedIndex s"
  by (simp add: remove_next_help_def split: list.splits sibling.splits)









subsection \<open>The routine on a page\<close>

lemma length_on_matching: "length (on_matching k f ss) = length ss"
  by (simp add: on_matching_def)

lemma nth_on_matching:
  "i < length ss \<Longrightarrow>
   on_matching k f ss ! i = (if matches_unit k (ss ! i) then f (ss ! i) else ss ! i)"
  by (simp add: on_matching_def)

lemma map_on_matching:
  "(\<And>s. f (g s) = f s) \<Longrightarrow> map f (on_matching k g ss) = map f ss"
  by (simp add: on_matching_def)

lemma populate_local_none:
  "synthesize k store rows = [] \<Longrightarrow>
   populate_local k store rows s =
     add_help (local_help k) ((remove_not_first (s\<lparr>disabled := False\<rparr>))\<lparr>disabled := True\<rparr>)"
  by (simp add: populate_local_def as_entries_def)

lemma matching_iff: "i \<in> set (matching k ss) \<longleftrightarrow> i < length ss \<and> matches_unit k (ss ! i)"
  by (auto simp: matching_def)

lemma distinct_matching: "distinct (matching k ss)"
  by (simp add: matching_def)

lemma selects_populate_local_at:
  "selects (populate_local_at k i p) =
     (selects p)[i := populate_local k
        (read_controls ((selects p)[i := remove_not_first ((selects p ! i)\<lparr>disabled := False\<rparr>)])
           (controls p))
        (formset_rows k p) (selects p ! i)]"
  by (simp add: populate_local_at_def Let_def)

lemma frame_populate_local_at:
  "controls (populate_local_at k i p) = controls p"
  "elements (populate_local_at k i p) = elements p"
  "console (populate_local_at k i p) = console p"
  "pending (populate_local_at k i p) = pending p"
  "product_variant (populate_local_at k i p) = product_variant p"
  "doc_bound (populate_local_at k i p) = doc_bound p"
  by (simp_all add: populate_local_at_def Let_def)

lemma frame_fold:
  "controls (fold (populate_local_at k) js p) = controls p"
  "elements (fold (populate_local_at k) js p) = elements p"
  "console (fold (populate_local_at k) js p) = console p"
  "pending (fold (populate_local_at k) js p) = pending p"
  "product_variant (fold (populate_local_at k) js p) = product_variant p"
  "doc_bound (fold (populate_local_at k) js p) = doc_bound p"
  by (induction js arbitrary: p) (simp_all add: frame_populate_local_at)

lemma length_selects_fold:
  "length (selects (fold (populate_local_at k) js p)) = length (selects p)"
  by (induction js arbitrary: p) (simp_all add: selects_populate_local_at)

lemma nth_fold_other:
  "i \<notin> set js \<Longrightarrow> selects (fold (populate_local_at k) js p) ! i = selects p ! i"
  by (induction js arbitrary: p) (simp_all add: selects_populate_local_at)

lemma formset_rows_elements: "elements q = elements p \<Longrightarrow> formset_rows k q = formset_rows k p"
  by (simp add: formset_rows_def)

lemma read_controls_plain:
  "list_all (\<lambda>f. fselect f = None) store \<Longrightarrow> read_controls sels store = store"
  by (induction store) (simp_all add: read_controls_def read_control_def)

lemma nth_fold_at:
  "distinct js \<Longrightarrow> i \<in> set js \<Longrightarrow> i < length (selects p) \<Longrightarrow>
   \<exists>sels. selects (fold (populate_local_at k) js p) ! i =
     populate_local k (read_controls sels (controls p)) (formset_rows k p) (selects p ! i)"
proof (induction js arbitrary: p)
  case Nil
  then show ?case by simp
next
  case (Cons j js)
  let ?q = "populate_local_at k j p"
  show ?case
  proof (cases "j = i")
    case True
    then have "i \<notin> set js" using Cons.prems(1) by simp
    then have "selects (fold (populate_local_at k) js ?q) ! i = selects ?q ! i"
      by (rule nth_fold_other)
    then show ?thesis
      using True Cons.prems(3) by (auto simp: selects_populate_local_at)
  next
    case False
    then have "i \<in> set js" "distinct js" using Cons.prems by simp_all
    moreover have "i < length (selects ?q)"
      using Cons.prems(3) by (simp add: selects_populate_local_at)
    ultimately obtain sels where
      "selects (fold (populate_local_at k) js ?q) ! i =
         populate_local k (read_controls sels (controls ?q)) (formset_rows k ?q) (selects ?q ! i)"
      using Cons.IH by blast
    moreover have "formset_rows k ?q = formset_rows k p"
      by (rule formset_rows_elements) (simp add: frame_populate_local_at)
    moreover have "selects ?q ! i = selects p ! i"
      using False by (simp add: selects_populate_local_at)
    ultimately show ?thesis by (auto simp: frame_populate_local_at)
  qed
qed

lemma frame_populate_unsaved:
  "controls (populate_unsaved k p) = controls p"
  "elements (populate_unsaved k p) = elements p"
  "console (populate_unsaved k p) = console p"
  "pending (populate_unsaved k p) = pending p"
  "product_variant (populate_unsaved k p) = product_variant p"
  "doc_bound (populate_unsaved k p) = doc_bound p"
  by (simp_all add: populate_unsaved_def frame_fold)

lemma length_selects_populate_unsaved:
  "length (selects (populate_unsaved k p)) = length (selects p)"
  by (simp add: populate_unsaved_def length_selects_fold length_on_matching)

lemma selects_populate_unsaved_other:
  assumes "i < length (selects p)" and "\<not> matches_unit k (selects p ! i)"
  shows "selects (populate_unsaved k p) ! i = selects p ! i"
proof -
  have "i \<notin> set (matching k (selects p))" using assms(2) by (simp add: matching_iff)
  then show ?thesis
    using assms by (simp add: populate_unsaved_def nth_fold_other nth_on_matching)
qed

lemma selects_populate_unsaved_matching:
  assumes "i < length (selects p)" and "matches_unit k (selects p ! i)"
  shows "\<exists>sels. selects (populate_unsaved k p) ! i =
           populate_local k (read_controls sels (controls p)) (formset_rows k p)
             (remove_next_help (selects p ! i))"
proof -
  let ?p0 = "p\<lparr>selects := on_matching k remove_next_help (selects p)\<rparr>"
  have "i \<in> set (matching k (selects p))" using assms by (simp add: matching_iff)
  moreover have "i < length (selects ?p0)" using assms(1) by (simp add: length_on_matching)
  ultimately obtain sels where
    "selects (fold (populate_local_at k) (matching k (selects p)) ?p0) ! i =
       populate_local k (read_controls sels (controls ?p0)) (formset_rows k ?p0) (selects ?p0 ! i)"
    using nth_fold_at [OF distinct_matching] by blast
  moreover have "formset_rows k ?p0 = formset_rows k p" by (simp add: formset_rows_def)
  moreover have "selects ?p0 ! i = remove_next_help (selects p ! i)"
    using assms by (simp add: nth_on_matching)
  ultimately show ?thesis by (auto simp: populate_unsaved_def)
qed

lemma selects_populate_unsaved_plain:
  assumes "list_all (\<lambda>f. fselect f = None) (controls p)"
    and "i < length (selects p)" and "matches_unit k (selects p ! i)"
  shows "selects (populate_unsaved k p) ! i =
           populate_local k (controls p) (formset_rows k p) (remove_next_help (selects p ! i))"
  using selects_populate_unsaved_matching [OF assms(2,3)] read_controls_plain [OF assms(1)]
  by auto

lemma filterRoutine_cases:
  "filterRoutine k p = p \<or>
   filterRoutine k p = p\<lparr>selects := on_matching k disable_no_parent (selects p)\<rparr> \<or>
   (\<exists>v. filterRoutine k p = populate_remote k v p) \<or>
   filterRoutine k p = populate_unsaved k p"
  by (auto simp: filterRoutine_def split: option.splits)

lemma length_selects_filterRoutine: "length (selects (filterRoutine k p)) = length (selects p)"
  using filterRoutine_cases [of k p]
  by (auto simp: length_on_matching populate_remote_def length_selects_populate_unsaved)

lemma first_kept_populate_unsaved:
  assumes "i < length (selects p)"
  shows "prefix (take 1 (sel_options (selects p ! i))) (sel_options (selects (populate_unsaved k p) ! i))"
proof (cases "matches_unit k (selects p ! i)")
  case True
  then obtain sels where
    "selects (populate_unsaved k p) ! i =
       populate_local k (read_controls sels (controls p)) (formset_rows k p)
         (remove_next_help (selects p ! i))"
    using selects_populate_unsaved_matching [OF assms] by blast
  then show ?thesis by (simp add: options_populate_local options_remove_next_help)
next
  case False
  then show ?thesis using assms by (simp add: selects_populate_unsaved_other take_is_prefix)
qed

lemma first_kept_filterRoutine:
  assumes "i < length (selects p)"
  shows "prefix (take 1 (sel_options (selects p ! i))) (sel_options (selects (filterRoutine k p) ! i))"
  using filterRoutine_cases [of k p] assms first_kept_populate_unsaved [OF assms, of k]
  by (auto simp: nth_on_matching populate_remote_def options_disable_no_parent
      options_remove_next_help take_is_prefix)

lemma length_selects_dispatch: "length (selects (dispatch k ev p)) = length (selects p)"
  by (cases ev)
    (auto simp: length_selects_filterRoutine bind_handlers_def formset_handler_def Let_def
      split: option.splits)

lemma first_kept_dispatch:
  assumes "i < length (selects p)"
  shows "prefix (take 1 (sel_options (selects p ! i))) (sel_options (selects (dispatch k ev p) ! i))"
proof (cases ev)
  case (AjaxSuccess n results answer)
  then show ?thesis using assms
    by (auto simp: Let_def nth_list_update options_ajax_success take_is_prefix)
next
  case (AjaxError n)
  then show ?thesis by (simp add: take_is_prefix)
next
  case Ready
  then show ?thesis using first_kept_filterRoutine [OF assms, of k]
    by (simp add: bind_handlers_def)
next
  case (FormsetAdded formsetName)
  then show ?thesis using first_kept_filterRoutine [OF assms, of k]
    by (simp add: formset_handler_def take_is_prefix)
next
  case (FormsetRemoved formsetName)
  then show ?thesis using first_kept_filterRoutine [OF assms, of k]
    by (simp add: formset_handler_def take_is_prefix)
next
  case ChangeParent
  then show ?thesis using first_kept_filterRoutine [OF assms, of k]
    by (simp add: take_is_prefix split: option.splits)
next
  case (ChangeField j)
  then show ?thesis using first_kept_filterRoutine [OF assms, of k]
    by (simp add: take_is_prefix)
qed

lemma detect_no_parent: "isItemAddPage p \<Longrightarrow> \<not> truthy (parent_value p) \<Longrightarrow> detect p = None"
  by (simp add: detect_def)

lemma filterRoutine_remote:
  "detect p = Some (Some pid) \<Longrightarrow> pid \<noteq> [] \<Longrightarrow> filterRoutine k p = populate_remote k pid p"
  by (simp add: filterRoutine_def truthy_def)

lemma filterRoutine_local:
  assumes "detect p = Some pid" and "\<not> truthy pid" and "isProductVariantAddPage p"
  shows "filterRoutine k p = populate_unsaved k p"
  using assms by (simp add: filterRoutine_def)

lemma console_filterRoutine: "console (filterRoutine k p) = console p"
  using filterRoutine_cases [of k p] by (auto simp: populate_remote_def frame_populate_unsaved)




lemma set_without: "set (without n xs) \<subseteq> set xs"
  using set_take_subset [of n xs] set_drop_subset [of "Suc n" xs] by (auto simp: without_def)

lemma length_without: "n < length xs \<Longrightarrow> Suc (length (without n xs)) = length xs"
  by (auto simp: without_def)

lemma length_filter_enumerate:
  "length (filter (\<lambda>js. P (snd js)) (enumerate n xs)) = length (filter P xs)"
  by (induction xs arbitrary: n) auto

lemma options_populate_remote:
  "map sel_options (selects (populate_remote k pid p)) = map sel_options (selects p)"
  by (simp add: populate_remote_def map_on_matching options_remove_next_help)

lemma val_populate_remote:
  "map val (selects (populate_remote k pid p)) = map val (selects p)"
  by (simp add: populate_remote_def map_on_matching)



subsection \<open>The regular expression\<close>

lemma match_here_sound:
  assumes "match_here s = Some ds"
  shows "ds \<noteq> [] \<and> (\<forall>c\<in>set ds. is_digit c) \<and> prefix (re_head @ ds @ re_tail) s"
proof -
  let ?r = "drop (length re_head) s"
  from assms have h: "prefix re_head s" and d: "ds = takeWhile is_digit ?r" and n: "ds \<noteq> []"
    and t: "prefix re_tail (dropWhile is_digit ?r)"
    by (auto simp: match_here_def Let_def split: if_splits)
  from h have s: "s = re_head @ ?r" by (auto elim!: prefixE)
  have "?r = ds @ dropWhile is_digit ?r" using d by simp
  then have "prefix (ds @ re_tail) ?r" using t by (metis same_prefix_prefix)
  then have "prefix (re_head @ ds @ re_tail) (re_head @ ?r)" by simp
  then have "prefix (re_head @ ds @ re_tail) s" using s by simp
  moreover have "\<forall>c\<in>set ds. is_digit c" using d by (auto dest: set_takeWhileD)
  ultimately show ?thesis using n by simp
qed

lemma js_includes_prefix: "prefix n s \<Longrightarrow> js_includes s n"
  by (cases s) auto

lemma match_change_sound:
  "match_change s = Some ds \<Longrightarrow>
   ds \<noteq> [] \<and> (\<forall>c\<in>set ds. is_digit c) \<and> js_includes s (re_head @ ds @ re_tail)"
proof (induction s)
  case Nil
  then show ?case by simp
next
  case (Cons c cs)
  show ?case
  proof (cases "match_here (c # cs)")
    case None
    then show ?thesis using Cons by simp
  next
    case (Some e)
    then have "e = ds" using Cons.prems by simp
    then show ?thesis using match_here_sound [OF Some] by (simp del: js_includes.simps add: js_includes_prefix)
  qed
qed

lemma re_tail_starts: "\<exists>x xs. re_tail = x # xs \<and> \<not> is_digit x"
  by (simp add: is_digit_def re_tail_def)

lemma match_here_complete:
  assumes "ds \<noteq> []" and "\<forall>c\<in>set ds. is_digit c"
  shows "match_here (re_head @ ds @ re_tail @ post) = Some ds"
proof -
  obtain x xs where t: "re_tail = x # xs" and x: "\<not> is_digit x"
    using re_tail_starts by blast
  have "takeWhile is_digit (ds @ re_tail @ post) = ds"
    using assms(2) x by (simp add: t takeWhile_append2)
  moreover have "dropWhile is_digit (ds @ re_tail @ post) = re_tail @ post"
    using assms(2) x by (simp add: t dropWhile_append2)
  ultimately show ?thesis using assms(1) by (simp add: match_here_def)
qed

lemma match_change_at: "match_here s = Some ds \<Longrightarrow> match_change s = Some ds"
  by (cases s) (simp_all add: match_here_def re_head_def)

lemma match_change_skip:
  "(\<forall>i<length pre. match_here (drop i (pre @ s)) = None) \<Longrightarrow>
   match_change (pre @ s) = match_change s"
proof (induction pre)
  case Nil
  then show ?case by simp
next
  case (Cons c pre)
  from Cons.prems have "match_here (drop 0 ((c # pre) @ s)) = None" by blast
  then have here: "match_here (c # pre @ s) = None" by simp
  have "\<forall>i<length pre. match_here (drop i (pre @ s)) = None"
  proof (intro allI impI)
    fix i assume "i < length pre"
    then have "match_here (drop (Suc i) ((c # pre) @ s)) = None" using Cons.prems by auto
    then show "match_here (drop i (pre @ s)) = None" by simp
  qed
  then show ?case using Cons.IH here by simp
qed

lemma match_change_total:
  "match_here s = Some ds \<Longrightarrow> match_change (pre @ s) \<noteq> None"
proof (induction pre)
  case Nil
  then show ?case by (simp add: match_change_at)
next
  case (Cons c pre)
  then show ?case by (cases "match_here (c # pre @ s)") simp_all
qed

subsection \<open>The rows of a formset\<close>

lemma pricing_tier_of_complete_row:
  assumes "\<not> marked_deleted store r"
    and "find_val store r ''-tier_type'' = Some t" and "t \<noteq> []"
    and "find_val store r ''-range_start'' = Some a" and "a \<noteq> []"
    and "find_val store r ''-range_end'' = Some b" and "b \<noteq> []"
  shows "pricing_tier_of_row store r =
           Some (js_or (find_val store r ''-id'') (elem_id r), t @ '' ('' @ a @ ''-'' @ b @ '')'')"
  using assms by (simp add: pricing_tier_of_row_def truthy_def)

lemma table_field_of_complete_row:
  assumes "\<not> marked_deleted store r"
    and "find_val store r ''-name'' = Some n" and "n \<noteq> []"
    and "find_val store r ''-field_type'' = Some t" and "t \<noteq> []"
  shows "table_field_of_row store r =
           Some (js_or (find_val store r ''-id'') (elem_id r), n @ '' ('' @ t @ '')'')"
  using assms by (simp add: table_field_of_row_def truthy_def)

lemma item_of_deleted_row: "marked_deleted store r \<Longrightarrow> item_of_row k store r = None"
  by (cases k) (simp_all add: pricing_tier_of_row_def table_field_of_row_def)

lemma synthesize_concat:
  "synthesize k store rows =
     concat (map (\<lambda>r. case item_of_row k store r of None \<Rightarrow> [] | Some item \<Rightarrow> [item]) rows)"
  by (induction rows) (simp_all split: option.splits)

lemma length_synthesize:
  "length (synthesize k store rows) = length (filter (\<lambda>r. item_of_row k store r \<noteq> None) rows)"
  by (induction rows) (simp_all split: option.splits)

lemma synthesize_append:
  "synthesize k store (rs1 @ rs2) = synthesize k store rs1 @ synthesize k store rs2"
  by (simp add: synthesize_concat)

lemma pricing_tier_of_incomplete_row:
  "\<not> truthy (find_val store r ''-tier_type'') \<or> \<not> truthy (find_val store r ''-range_start'') \<or>
   \<not> truthy (find_val store r ''-range_end'') \<Longrightarrow> pricing_tier_of_row store r = None"
  by (auto simp: pricing_tier_of_row_def Let_def)

lemma table_field_of_incomplete_row:
  "\<not> truthy (find_val store r ''-name'') \<or> \<not> truthy (find_val store r ''-field_type'') \<Longrightarrow>
   table_field_of_row store r = None"
  by (auto simp: table_field_of_row_def Let_def)

lemma synthesize_skip:
  "item_of_row k store r = None \<Longrightarrow>
   synthesize k store (rs1 @ r # rs2) = synthesize k store (rs1 @ rs2)"
  by (simp add: synthesize_concat)




subsection \<open>The bindings along a run\<close>












section \<open>The claims\<close>




text \<open>
  C2. A failed lookup only writes the diagnostic line to the console: every select
  (options, selected index, disabled flag, help messages) and every control stay as
  they are, the request leaves the list of requests in flight and no request is added.
  From before the request was sent to after its failure, the options and the value of
  every select are the same.
\<close>

theorem remote_failure_only_logs:
  "selects (dispatch k (AjaxError n) p) = selects p \<and>
   controls (dispatch k (AjaxError n) p) = controls p \<and>
   elements (dispatch k (AjaxError n) p) = elements p \<and>
   set (pending (dispatch k (AjaxError n) p)) \<subseteq> set (pending p) \<and>
   (n < length (pending p) \<longrightarrow>
      console (dispatch k (AjaxError n) p) = console p @ [error_message k] \<and>
      pending (dispatch k (AjaxError n) p) = without n (pending p) \<and>
      Suc (length (pending (dispatch k (AjaxError n) p))) = length (pending p)) \<and>
   (detect p = Some (Some pid) \<and> pid \<noteq> [] \<longrightarrow>
      map sel_options (selects (dispatch k (AjaxError n) (filterRoutine k p))) =
        map sel_options (selects p) \<and>
      map val (selects (dispatch k (AjaxError n) (filterRoutine k p))) = map val (selects p))"
  by (simp add: set_without length_without filterRoutine_remote options_populate_remote
      val_populate_remote)

theorem remote_failure_only_logs_witness:
  "selects (dispatch PricingTiers (AjaxError 0) (variant_change_page\<lparr>pending := [in_flight]\<rparr>)) =
     [tier_select, field_select] \<and>
   console (dispatch PricingTiers (AjaxError 0) (variant_change_page\<lparr>pending := [in_flight]\<rparr>)) =
     [''Error fetching PricingTiers''] \<and>
   pending (dispatch PricingTiers (AjaxError 0) (variant_change_page\<lparr>pending := [in_flight]\<rparr>)) = [] \<and>
   map val (selects (dispatch PricingTiers (AjaxError 0)
     (filterRoutine PricingTiers variant_change_page))) = [Some ''7'', Some []]"
proof -
  let ?p = "variant_change_page\<lparr>pending := [in_flight]\<rparr>"
  have n: "0 < length (pending ?p)" by simp
  have d: "detect variant_change_page = Some (Some ''42'')" "''42'' \<noteq> []"
    by (simp_all add: detect_def isItemAddPage_def isProductVariantAddPage_def
        isProductVariantChangePage_def variant_change_page_def match_here_def re_head_def
        re_tail_def is_digit_def)
  have v: "map val (selects variant_change_page) = [Some ''7'', Some []]"
    by (simp add: variant_change_page_def tier_select_def field_select_def val_def)
  have "selects (dispatch PricingTiers (AjaxError 0) ?p) = [tier_select, field_select] \<and>
      console (dispatch PricingTiers (AjaxError 0) ?p) = [''Error fetching PricingTiers''] \<and>
      pending (dispatch PricingTiers (AjaxError 0) ?p) = []"
    using remote_failure_only_logs [of PricingTiers 0 ?p] n
    by (simp add: variant_change_page_def without_def)
  moreover have "map val (selects (dispatch PricingTiers (AjaxError 0)
      (filterRoutine PricingTiers variant_change_page))) = [Some ''7'', Some []]"
    using remote_failure_only_logs [of PricingTiers 0 variant_change_page "''42''"] d v
    by simp
  ultimately show ?thesis by simp
qed

text \<open>
  C3 does not hold of the code on the pages the admin produces. The loop over the rows
  runs over every element whose id starts with the prefix of the formset, and the
  container of the inline is one of them: on a page with one complete pricing-tier row
  the select gets two options for that row, one under the id of the container. The loop
  over the selects takes every select whose id holds the needle, and the select of a
  row's own type is one of them: it loses its options before the row is read, so a
  complete table-field row that is not marked for deletion gives no option, and both
  selects end disabled with nothing but their first option.
\<close>

theorem rows_of_admin_layout:
  "formset_rows PricingTiers group_page = [tier_group, tier_row0] \<and>
   marked_deleted (controls group_page) tier_row0 = False \<and>
   sel_options (selects (filterRoutine PricingTiers group_page) ! 0) =
     [([], ''---------''), (''pricing_tiers-group'', ''Buy (1-10)''),
      (''pricing_tiers-0'', ''Buy (1-10)'')] \<and>
   marked_deleted (read_controls (selects aliased_page) (controls aliased_page)) aliased_row = False \<and>
   item_of_row TableFields (read_controls (selects aliased_page) (controls aliased_page)) aliased_row =
     Some (''table_fields-0'', ''Width (number)'') \<and>
   map sel_options (selects (filterRoutine TableFields aliased_page)) =
     [[([], ''---------'')], [([], ''---------'')]] \<and>
   map disabled (selects (filterRoutine TableFields aliased_page)) = [True, True]"
proof -
  have d: "detect group_page = Some None" "\<not> truthy None" "isProductVariantAddPage group_page"
    by (simp_all add: detect_def isItemAddPage_def isProductVariantAddPage_def
        group_page_def truthy_def)
  have plain: "list_all (\<lambda>f. fselect f = None) (controls group_page)"
    by (simp add: group_page_def group_controls_def)
  have m: "0 < length (selects group_page)" "matches_unit PricingTiers (selects group_page ! 0)"
    by (simp_all add: group_page_def matches_unit_def tier_select_def)
  have rows: "formset_rows PricingTiers group_page = [tier_group, tier_row0]"
    by (simp add: formset_rows_def group_page_def tier_group_def tier_row0_def)
  have items: "synthesize PricingTiers (controls group_page) [tier_group, tier_row0] =
      [(''pricing_tiers-group'', ''Buy (1-10)''), (''pricing_tiers-0'', ''Buy (1-10)'')]"
    by (simp add: group_page_def group_controls_def tier_group_def tier_row0_def row_ops)
  have del: "marked_deleted (controls group_page) tier_row0 = False"
    by (simp add: group_page_def group_controls_def tier_row0_def row_ops)
  have 1: "sel_options (selects (filterRoutine PricingTiers group_page) ! 0) =
     [([], ''---------''), (''pricing_tiers-group'', ''Buy (1-10)''),
      (''pricing_tiers-0'', ''Buy (1-10)'')]"
    by (simp only: filterRoutine_local [OF d] selects_populate_unsaved_plain [OF plain m]
        options_populate_local rows items options_remove_next_help)
      (simp add: group_page_def tier_select_def)
  have e: "detect aliased_page = Some None" "isProductVariantAddPage aliased_page"
    by (simp_all add: detect_def isItemAddPage_def isProductVariantAddPage_def aliased_page_def)
  have before: "read_controls (selects aliased_page) (controls aliased_page) =
      aliased_controls"
    by (simp add: aliased_page_def aliased_controls_def read_controls_def read_control_def
        type_select_def val_def)
  have 2: "marked_deleted (read_controls (selects aliased_page) (controls aliased_page)) aliased_row = False"
    "item_of_row TableFields (read_controls (selects aliased_page) (controls aliased_page)) aliased_row =
     Some (''table_fields-0'', ''Width (number)'')"
    unfolding before by (simp_all add: aliased_controls_def aliased_row_def row_ops)
  have ms: "matching TableFields (selects aliased_page) = [0, 1]"
    by (simp add: matching_def aliased_page_def matches_unit_def type_select_def field_select_def)
  have r: "filterRoutine TableFields aliased_page = populate_unsaved TableFields aliased_page"
    by (rule filterRoutine_local [OF e(1) _ e(2)]) (simp add: truthy_def)
  have sels: "selects (filterRoutine TableFields aliased_page) =
      [add_help (local_help TableFields)
         (type_select\<lparr>sel_options := [([], ''---------'')], selectedIndex := Some 0, disabled := True\<rparr>),
       add_help (local_help TableFields) (field_select\<lparr>disabled := True\<rparr>)]"
  proof -
    let ?e0 = "type_select\<lparr>sel_options := [([], ''---------'')], selectedIndex := Some 0\<rparr>"
    let ?s0 = "add_help (local_help TableFields) (?e0\<lparr>disabled := True\<rparr>)"
    let ?p0 = "aliased_page\<lparr>selects := on_matching TableFields remove_next_help (selects aliased_page)\<rparr>"
    have p0: "selects ?p0 = [type_select, field_select]" "controls ?p0 = aliased_controls"
      "formset_rows TableFields ?p0 = [aliased_row]"
      by (simp_all add: aliased_page_def on_matching_def remove_next_help_def type_select_def
          field_select_def formset_rows_def aliased_row_def)
    have emptied: "remove_not_first (type_select\<lparr>disabled := False\<rparr>) = ?e0"
      "remove_not_first (field_select\<lparr>disabled := False\<rparr>) = field_select"
      by (simp_all add: remove_not_first_def type_select_def field_select_def)
    have none0: "synthesize TableFields (read_controls [?e0, field_select] aliased_controls)
        [aliased_row] = []"
      by (simp add: read_controls_def read_control_def aliased_controls_def aliased_row_def
          type_select_def val_def row_ops)
    have none1: "synthesize TableFields (read_controls [?s0, field_select] aliased_controls)
        [aliased_row] = []"
      by (simp add: read_controls_def read_control_def aliased_controls_def aliased_row_def
          type_select_def val_def row_ops add_help_def)
    let ?p1 = "populate_local_at TableFields 0 ?p0"
    have s1: "selects ?p1 = [?s0, field_select]"
    proof -
      have "selects ?p1 =
          (selects ?p0)[0 := populate_local TableFields
            (read_controls ((selects ?p0)[0 := remove_not_first ((selects ?p0 ! 0)\<lparr>disabled := False\<rparr>)])
               (controls ?p0))
            (formset_rows TableFields ?p0) (selects ?p0 ! 0)]"
        by (rule selects_populate_local_at)
      then show ?thesis
        unfolding p0 by (simp add: emptied populate_local_none [OF none0])
    qed
    have p1: "controls ?p1 = aliased_controls" "formset_rows TableFields ?p1 = [aliased_row]"
      using p0(2,3) by (simp_all add: frame_populate_local_at formset_rows_def)
    have s2: "selects (populate_local_at TableFields 1 ?p1) =
        [?s0, add_help (local_help TableFields) (field_select\<lparr>disabled := True\<rparr>)]"
    proof -
      have "selects (populate_local_at TableFields 1 ?p1) =
          (selects ?p1)[1 := populate_local TableFields
            (read_controls ((selects ?p1)[1 := remove_not_first ((selects ?p1 ! 1)\<lparr>disabled := False\<rparr>)])
               (controls ?p1))
            (formset_rows TableFields ?p1) (selects ?p1 ! 1)]"
        by (rule selects_populate_local_at)
      then show ?thesis
        unfolding s1 p1
        by (simp only: nth_Cons_Suc nth_Cons_0 One_nat_def list_update_code emptied
            populate_local_none [OF none1])
    qed
    show ?thesis
      by (simp only: r populate_unsaved_def ms fold_simps s2)
  qed
  have 3: "map sel_options (selects (filterRoutine TableFields aliased_page)) =
     [[([], ''---------'')], [([], ''---------'')]]"
    "map disabled (selects (filterRoutine TableFields aliased_page)) = [True, True]"
    unfolding sels by (simp_all add: add_help_def field_select_def)
  show ?thesis using rows del 1 2 3 by (intro conjI)
qed

text \<open>
  C4. A row that lacks one of its required values gives no entry, and the populated
  select is the one the page would have without the row; the routine never writes to
  the console.
\<close>

theorem incomplete_rows_skipped:
  "(\<not> truthy (find_val store r ''-tier_type'') \<or> \<not> truthy (find_val store r ''-range_start'') \<or>
    \<not> truthy (find_val store r ''-range_end'') \<longrightarrow> item_of_row PricingTiers store r = None) \<and>
   (\<not> truthy (find_val store r ''-name'') \<or> \<not> truthy (find_val store r ''-field_type'') \<longrightarrow>
      item_of_row TableFields store r = None) \<and>
   (item_of_row k store r = None \<longrightarrow>
      synthesize k store (rs1 @ r # rs2) = synthesize k store (rs1 @ rs2) \<and>
      populate_local k store (rs1 @ r # rs2) s = populate_local k store (rs1 @ rs2) s) \<and>
   console (filterRoutine k p) = console p"
  using pricing_tier_of_incomplete_row [of store r] table_field_of_incomplete_row [of store r]
  by (auto simp: synthesize_skip populate_local_def console_filterRoutine)

theorem incomplete_rows_skipped_witness:
  "item_of_row PricingTiers tier_controls tier_row1 = None \<and>
   populate_local PricingTiers tier_controls [tier_row0, tier_row1] tier_select =
     populate_local PricingTiers tier_controls [tier_row0] tier_select \<and>
   console (filterRoutine PricingTiers variant_add_page) = []"
proof -
  have missing: "\<not> truthy (find_val tier_controls tier_row1 ''-range_end'')"
    by (simp add: example_defs row_ops)
  note a = incomplete_rows_skipped [of tier_controls tier_row1 PricingTiers "[tier_row0]" "[]"
      tier_select variant_add_page]
  have 1: "item_of_row PricingTiers tier_controls tier_row1 = None"
    using a missing by blast
  have 2: "populate_local PricingTiers tier_controls [tier_row0, tier_row1] tier_select =
     populate_local PricingTiers tier_controls [tier_row0] tier_select"
    using a 1 by simp
  have 3: "console (filterRoutine PricingTiers variant_add_page) = []"
    using a by (simp add: variant_add_page_def)
  show ?thesis using 1 2 3 by simp
qed

text \<open>
  C5. When the context detector finds a parent identifier, the routine sends one GET
  request for each dependent select, to the autocomplete address of its unit, with the
  two parameters \<^verbatim>\<open>product_variant_id\<close> (the identifier) and \<^verbatim>\<open>q\<close> (empty), and nothing
  else; the entries of a response (identifier and text) become the options of the
  select after its first one.
\<close>

theorem remote_request_shape:
  assumes "detect p = Some (Some pid)" and "pid \<noteq> []"
  shows "pending (filterRoutine k p) =
           pending p @ map (new_request k pid)
             (filter (\<lambda>js. matches_unit k (snd js)) (enumerate 0 (selects p))) \<and>
         length (pending (filterRoutine k p)) =
           length (pending p) + length (filter (matches_unit k) (selects p)) \<and>
         (\<forall>r\<in>set (drop (length (pending p)) (pending (filterRoutine k p))).
            req_url r = autocomplete_url k \<and> req_method r = GET \<and>
            req_data r = [(''product_variant_id'', pid), (''q'', [])]) \<and>
         autocomplete_url PricingTiers = ''/admin/ecommerce/pricingtier/autocomplete/'' \<and>
         autocomplete_url TableFields = ''/admin/ecommerce/tablefield/autocomplete/'' \<and>
         (\<forall>n results answer. n < length (pending p) \<and> req_select (pending p ! n) < length (selects p) \<longrightarrow>
            sel_options (selects (dispatch k (AjaxSuccess n results answer) p) ! req_select (pending p ! n)) =
              take 1 (sel_options (selects p ! req_select (pending p ! n))) @ map new_option results)"
proof -
  have r: "filterRoutine k p = populate_remote k pid p"
    using assms by (rule filterRoutine_remote)
  show ?thesis
    by (auto simp: r populate_remote_def new_request_def length_filter_enumerate Let_def
        options_ajax_success)
qed

theorem remote_request_shape_witness:
  "detect variant_change_page = Some (Some ''42'') \<and>
   pending (filterRoutine PricingTiers variant_change_page) = [in_flight] \<and>
   sel_options (selects (dispatch PricingTiers (AjaxSuccess 0 [(IdNumber ''9'', ''Rent (1-5)'')] None)
       (filterRoutine PricingTiers variant_change_page)) ! 0) =
     [([], ''---------''), (''9'', ''Rent (1-5)'')]"
proof -
  have d: "detect variant_change_page = Some (Some ''42'')"
    by (simp add: detect_def isItemAddPage_def isProductVariantAddPage_def
        isProductVariantChangePage_def variant_change_page_def match_here_def re_head_def
        re_tail_def is_digit_def)
  have ne: "''42'' \<noteq> []" by simp
  have p: "pending (filterRoutine PricingTiers variant_change_page) = [in_flight]"
    using remote_request_shape [OF d ne, of PricingTiers]
    by (simp add: variant_change_page_def matches_unit_def tier_select_def field_select_def
        new_request_def in_flight_def val_def enumerate_eq_zip)
  have q: "filterRoutine PricingTiers variant_change_page = populate_remote PricingTiers ''42'' variant_change_page"
    using d ne by (rule filterRoutine_remote)
  have s: "sel_options (selects (dispatch PricingTiers (AjaxSuccess 0 [(IdNumber ''9'', ''Rent (1-5)'')] None)
       (filterRoutine PricingTiers variant_change_page)) ! 0) =
     [([], ''---------''), (''9'', ''Rent (1-5)'')]"
    using p by (simp add: q Let_def options_ajax_success in_flight_def)
      (simp add: populate_remote_def variant_change_page_def on_matching_def matches_unit_def
        tier_select_def options_remove_next_help new_option_def id_text_def)
  show ?thesis using d p s by simp
qed



text \<open>
  C7. On a page that is none of the two add pages and whose path holds
  \<^verbatim>\<open>/ecommerce/productvariant/<digits>/change/\<close>, the detector finds a parent identifier:
  a run of digits standing in the path between the two literal parts, and the run of
  the given occurrence when no occurrence starts before it. The routine then takes the
  remote branch with that identifier.
\<close>

theorem change_page_takes_remote_branch:
  assumes "\<not> isItemAddPage p" and "\<not> isProductVariantAddPage p"
    and "pathname p = pre @ re_head @ ds @ re_tail @ post"
    and "ds \<noteq> []" and "\<forall>c\<in>set ds. is_digit c"
  shows "\<exists>ds'. detect p = Some (Some ds') \<and> ds' \<noteq> [] \<and> (\<forall>c\<in>set ds'. is_digit c) \<and>
           js_includes (pathname p) (re_head @ ds' @ re_tail) \<and>
           filterRoutine k p = populate_remote k ds' p \<and>
           ((\<forall>i<length pre. match_here (drop i (pathname p)) = None) \<longrightarrow> ds' = ds)"
proof -
  let ?s = "re_head @ ds @ re_tail @ post"
  have here: "match_here ?s = Some ds" using assms(4,5) by (rule match_here_complete)
  then have "match_change (pathname p) \<noteq> None"
    using assms(3) match_change_total [of ?s ds pre] by simp
  then obtain ds' where m: "match_change (pathname p) = Some ds'" by auto
  have d: "detect p = Some (Some ds')"
    using assms(1,2) m by (simp add: detect_def isProductVariantChangePage_def)
  have sound: "ds' \<noteq> [] \<and> (\<forall>c\<in>set ds'. is_digit c) \<and> js_includes (pathname p) (re_head @ ds' @ re_tail)"
    using m by (rule match_change_sound)
  then have r: "filterRoutine k p = populate_remote k ds' p"
    using d by (simp add: filterRoutine_remote)
  have "ds' = ds" if "\<forall>i<length pre. match_here (drop i (pathname p)) = None"
  proof -
    have "match_change (pre @ ?s) = match_change ?s"
      using that assms(3) by (intro match_change_skip) simp
    then show ?thesis using m assms(3) match_change_at [OF here] by simp
  qed
  then show ?thesis using d sound r by blast
qed

theorem change_page_takes_remote_branch_witness:
  "detect variant_change_page = Some (Some ''42'') \<and>
   filterRoutine TableFields variant_change_page =
     populate_remote TableFields ''42'' variant_change_page"
proof -
  have a: "\<not> isItemAddPage variant_change_page" "\<not> isProductVariantAddPage variant_change_page"
    by (simp_all add: isItemAddPage_def isProductVariantAddPage_def variant_change_page_def)
  have b: "pathname variant_change_page = ''/admin'' @ re_head @ ''42'' @ re_tail @ []"
    by (simp add: variant_change_page_def re_head_def re_tail_def)
  have c: "''42'' \<noteq> []" "\<forall>c\<in>set ''42''. is_digit c"
    by (simp_all add: is_digit_def)
  have first: "\<forall>i<length ''/admin''. match_here (drop i (pathname variant_change_page)) = None"
  proof (intro allI impI)
    fix i :: nat assume "i < length ''/admin''"
    then have "i \<in> {0, 1, 2, 3, 4, 5}" by auto
    then show "match_here (drop i (pathname variant_change_page)) = None"
      by (auto simp: variant_change_page_def match_here_def re_head_def)
  qed
  obtain ds' where d: "detect variant_change_page = Some (Some ds')"
    and r: "filterRoutine TableFields variant_change_page =
              populate_remote TableFields ds' variant_change_page"
    and e: "(\<forall>i<length ''/admin''. match_here (drop i (pathname variant_change_page)) = None)
              \<longrightarrow> ds' = ''42''"
    using change_page_takes_remote_branch [OF a b c, of TableFields] by blast
  have "ds' = ''42''" using e first by blast
  then show ?thesis using d r by simp
qed

text \<open>
  C8. On the Item add page with no ProductVariant chosen the routine sends no request
  and writes nothing to the console; every dependent select is disabled, its value is
  emptied (the empty option is selected, or no option when there is none), its options
  are untouched, and the help message directly follows it, replacing a help message
  that stood there; running the step again changes nothing more. The other selects are
  untouched.
\<close>

theorem item_add_without_parent_disables:
  assumes "isItemAddPage p" and "\<not> truthy (parent_value p)"
  shows "pending (filterRoutine k p) = pending p \<and>
         console (filterRoutine k p) = console p \<and>
         length (selects (filterRoutine k p)) = length (selects p) \<and>
         (\<forall>i<length (selects p).
            if matches_unit k (selects p ! i) then
              disabled (selects (filterRoutine k p) ! i) \<and>
              val (selects (filterRoutine k p) ! i) =
                (if has_option [] (selects p ! i) then Some [] else None) \<and>
              sel_options (selects (filterRoutine k p) ! i) = sel_options (selects p ! i) \<and>
              after (selects (filterRoutine k p) ! i) =
                Help no_parent_help # after (remove_next_help (selects p ! i)) \<and>
              disable_no_parent (selects (filterRoutine k p) ! i) = selects (filterRoutine k p) ! i
            else selects (filterRoutine k p) ! i = selects p ! i)"
proof -
  have r: "filterRoutine k p = p\<lparr>selects := on_matching k disable_no_parent (selects p)\<rparr>"
    using detect_no_parent [OF assms] by (simp add: filterRoutine_def)
  show ?thesis
    by (simp add: r length_on_matching nth_on_matching disable_no_parent_props
        options_disable_no_parent disable_no_parent_idem)
qed

theorem item_add_without_parent_disables_witness:
  "isItemAddPage item_add_page \<and> \<not> truthy (parent_value item_add_page) \<and>
   disabled (selects (filterRoutine PricingTiers item_add_page) ! 0) \<and>
   val (selects (filterRoutine PricingTiers item_add_page) ! 0) = Some [] \<and>
   sel_options (selects (filterRoutine PricingTiers item_add_page) ! 0) =
     [([], ''---------''), (''7'', ''Buy (1-10)'')] \<and>
   after (selects (filterRoutine PricingTiers item_add_page) ! 0) =
     [Help ''Select a Product Variant to enable this field.''] \<and>
   selects (filterRoutine PricingTiers item_add_page) ! 1 = field_select \<and>
   pending (filterRoutine PricingTiers item_add_page) = []"
proof -
  have a: "isItemAddPage item_add_page" and b: "\<not> truthy (parent_value item_add_page)"
    by (simp_all add: isItemAddPage_def parent_value_def truthy_def item_add_page_def)
  have m: "matches_unit PricingTiers (selects item_add_page ! 0)"
    "\<not> matches_unit PricingTiers (selects item_add_page ! 1)"
    "length (selects item_add_page) = 2"
    by (simp_all add: matches_unit_def item_add_page_def tier_select_def field_select_def)
  have s: "has_option [] (selects item_add_page ! 0)"
    "sel_options (selects item_add_page ! 0) = [([], ''---------''), (''7'', ''Buy (1-10)'')]"
    "after (remove_next_help (selects item_add_page ! 0)) = []"
    "selects item_add_page ! 1 = field_select" "pending item_add_page = []"
    by (simp_all add: item_add_page_def tier_select_def has_option_def remove_next_help_def)
  note t = item_add_without_parent_disables [OF a b, of PricingTiers]
  have 0: "0 < length (selects item_add_page)" and 1: "1 < length (selects item_add_page)"
    using m(3) by simp_all
  from t have q: "\<forall>i<length (selects item_add_page).
            if matches_unit PricingTiers (selects item_add_page ! i) then
              disabled (selects (filterRoutine PricingTiers item_add_page) ! i) \<and>
              val (selects (filterRoutine PricingTiers item_add_page) ! i) =
                (if has_option [] (selects item_add_page ! i) then Some [] else None) \<and>
              sel_options (selects (filterRoutine PricingTiers item_add_page) ! i) = sel_options (selects item_add_page ! i) \<and>
              after (selects (filterRoutine PricingTiers item_add_page) ! i) =
                Help no_parent_help # after (remove_next_help (selects item_add_page ! i)) \<and>
              disable_no_parent (selects (filterRoutine PricingTiers item_add_page) ! i) = selects (filterRoutine PricingTiers item_add_page) ! i
            else selects (filterRoutine PricingTiers item_add_page) ! i = selects item_add_page ! i"
    by blast
  from q 0 m(1) have x: "disabled (selects (filterRoutine PricingTiers item_add_page) ! 0) \<and>
              val (selects (filterRoutine PricingTiers item_add_page) ! 0) =
                (if has_option [] (selects item_add_page ! 0) then Some [] else None) \<and>
              sel_options (selects (filterRoutine PricingTiers item_add_page) ! 0) = sel_options (selects item_add_page ! 0) \<and>
              after (selects (filterRoutine PricingTiers item_add_page) ! 0) =
                Help no_parent_help # after (remove_next_help (selects item_add_page ! 0))"
    by (metis (no_types, lifting))
  from q 1 m(2) have y: "selects (filterRoutine PricingTiers item_add_page) ! 1 = selects item_add_page ! 1"
    by (metis (no_types, lifting))
  show ?thesis using a b x y s t by (simp add: no_parent_help_def)
qed




text \<open>
  C10. Every operation leaves the number of selects as it is and the first option of
  every select in its place: a repopulation replaces the options after the first one by
  the new ones, and the step of the Item add page leaves the options alone.
\<close>

theorem placeholder_option_preserved:
  "sel_options (ajax_success answer sv results s) = take 1 (sel_options s) @ map new_option results \<and>
   sel_options (populate_local k store rows s) = take 1 (sel_options s) @ synthesize k store rows \<and>
   sel_options (disable_no_parent s) = sel_options s \<and>
   length (selects (filterRoutine k p)) = length (selects p) \<and>
   length (selects (dispatch k ev p)) = length (selects p) \<and>
   (\<forall>i<length (selects p).
      prefix (take 1 (sel_options (selects p ! i))) (sel_options (selects (filterRoutine k p) ! i)) \<and>
      prefix (take 1 (sel_options (selects p ! i))) (sel_options (selects (dispatch k ev p) ! i)))"
  using first_kept_filterRoutine [of _ p k] first_kept_dispatch [of _ p k ev]
  by (simp add: options_ajax_success options_populate_local options_disable_no_parent
      length_selects_filterRoutine length_selects_dispatch)

theorem placeholder_option_preserved_witness:
  "prefix [([], ''---------'')]
     (sel_options (selects (dispatch PricingTiers (FormsetAdded (Some ''pricing_tiers'')) variant_add_page) ! 0)) \<and>
   prefix [([], ''---------'')]
     (sel_options (selects (filterRoutine TableFields variant_add_page) ! 1))"
proof -
  have l: "0 < length (selects variant_add_page)" "1 < length (selects variant_add_page)"
    by (simp_all add: variant_add_page_def)
  have o: "take 1 (sel_options (selects variant_add_page ! 0)) = [([], ''---------'')]"
    "take 1 (sel_options (selects variant_add_page ! 1)) = [([], ''---------'')]"
    by (simp_all add: variant_add_page_def tier_select_def field_select_def)
  have "prefix (take 1 (sel_options (selects variant_add_page ! 0)))
     (sel_options (selects (dispatch PricingTiers (FormsetAdded (Some ''pricing_tiers'')) variant_add_page) ! 0))"
    using placeholder_option_preserved [where k = PricingTiers and p = variant_add_page
        and ev = "FormsetAdded (Some ''pricing_tiers'')"] l(1) by blast
  moreover have "prefix (take 1 (sel_options (selects variant_add_page ! 1)))
     (sel_options (selects (filterRoutine TableFields variant_add_page) ! 1))"
    using placeholder_option_preserved [where k = TableFields and p = variant_add_page] l(2) by blast
  ultimately show ?thesis using o by simp
qed


end
